theory Spec2Isabelle
  imports Main "HOL-Library.Word"
begin

unbundle bit_operations_syntax

section \<open>Board configuration of the 8x8 LED matrix\<close>

text \<open>
  The header \<^verbatim>\<open>src/lib/BoardConfig/BoardConfig.h\<close> fixes the panel through preprocessor
  macros and offers two helpers, \<^verbatim>\<open>XY\<close> and \<^verbatim>\<open>sendFrameData\<close>, plus a palette of named
  colours. The macros that select code in \<^verbatim>\<open>XY\<close> are collected in a record, so that every
  \<^verbatim>\<open>#if\<close> branch of the function is a branch of the model. A macro is a C \<^verbatim>\<open>int\<close>
  literal; \<^verbatim>\<open>#if M\<close> holds when \<open>M \<noteq> 0\<close>.
\<close>

record panel_config =
  MATRIX_WIDTH :: int
  MATRIX_HEIGHT :: int
  PANEL_WIRING_SERPENTINE :: int
  PANEL_FLIP_X :: int
  PANEL_FLIP_Y :: int
  PANEL_ROTATION :: int

text \<open>The values the header defines.\<close>

definition board_config :: panel_config where
  "board_config =
     \<lparr>MATRIX_WIDTH = 8, MATRIX_HEIGHT = 8, PANEL_WIRING_SERPENTINE = 0,
      PANEL_FLIP_X = 0, PANEL_FLIP_Y = 0, PANEL_ROTATION = 0\<rparr>"

definition BRIGHTNESS_LIMIT :: int where
  "BRIGHTNESS_LIMIT = 60"

definition NUM_LEDS :: "panel_config \<Rightarrow> int" where
  "NUM_LEDS c = MATRIX_WIDTH c * MATRIX_HEIGHT c"

subsection \<open>The coordinate mapping\<close>

text \<open>
  \<^verbatim>\<open>inline uint16_t XY(uint8_t x, uint8_t y)\<close>. The parameters are 8-bit words. In every
  comparison and arithmetic expression C promotes them to \<^verbatim>\<open>int\<close> (\<open>uint\<close>); an assignment
  to \<^verbatim>\<open>x\<close> or \<^verbatim>\<open>y\<close> converts the \<^verbatim>\<open>int\<close> result back to 8 bits and the assignment to
  \<^verbatim>\<open>index\<close> converts to 16 bits (\<open>word_of_int\<close>, which truncates). The \<^verbatim>\<open>int\<close> arithmetic
  itself is written in \<open>int\<close>: with coordinates below 256 and a width of at most 256 no
  intermediate value leaves the range of a 32-bit \<^verbatim>\<open>int\<close>.
\<close>

definition XY :: "panel_config \<Rightarrow> 8 word \<Rightarrow> 8 word \<Rightarrow> 16 word" where
  "XY c x y =
     (let x = (if uint x \<ge> MATRIX_WIDTH c then word_of_int (MATRIX_WIDTH c - 1) else x);
          y = (if uint y \<ge> MATRIX_HEIGHT c then word_of_int (MATRIX_HEIGHT c - 1) else y);
          y = (if PANEL_FLIP_Y c \<noteq> 0 then word_of_int ((MATRIX_HEIGHT c - 1) - uint y) else y);
          x = (if PANEL_FLIP_X c \<noteq> 0 then word_of_int ((MATRIX_WIDTH c - 1) - uint x) else x)
      in if PANEL_WIRING_SERPENTINE c \<noteq> 0 then
           (if uint y AND 0x01 \<noteq> 0
            then word_of_int ((uint y * MATRIX_WIDTH c) + (MATRIX_WIDTH c - 1 - uint x))
            else word_of_int ((uint y * MATRIX_WIDTH c) + uint x))
         else word_of_int ((uint y * MATRIX_WIDTH c) + uint x))"

text \<open>
  The geometries for which 8-bit coordinates reach every column and row: both sides are
  positive and at most 256. The header's 8 by 8 panel is one of them.
\<close>

definition geometry_ok :: "panel_config \<Rightarrow> bool" where
  "geometry_ok c \<longleftrightarrow>
     0 < MATRIX_WIDTH c \<and> MATRIX_WIDTH c \<le> 256 \<and>
     0 < MATRIX_HEIGHT c \<and> MATRIX_HEIGHT c \<le> 256"

subsection \<open>The mapper as the specification words it\<close>

text \<open>
  The specification describes the mapper on integers in three passes: clamping, the flip
  pass (Y before X) and the topology pass. \<open>mapPosition\<close> follows that wording; it is the
  reference \<open>XY\<close> is compared with, and is not taken from the source.
\<close>

definition clamp_flip :: "int \<Rightarrow> bool \<Rightarrow> int \<Rightarrow> int" where
  "clamp_flip N flip v = (let v = min v (N - 1) in if flip then (N - 1) - v else v)"

definition mapPosition :: "int \<Rightarrow> int \<Rightarrow> bool \<Rightarrow> bool \<Rightarrow> bool \<Rightarrow> int \<Rightarrow> int \<Rightarrow> int" where
  "mapPosition W H serpentine flipX flipY x y =
     (let y = clamp_flip H flipY y;
          x = clamp_flip W flipX x
      in if serpentine \<and> odd y then y * W + (W - 1 - x) else y * W + x)"

subsection \<open>Frame serialisation\<close>

text \<open>
  \<^verbatim>\<open>CRGB\<close> is FastLED's pixel: three 8-bit channels. The argument \<^verbatim>\<open>CRGB* leds\<close> is a
  pointer into the LED buffer; the model is the store it points to, from element offsets
  to pixels. The serial port is the text printed so far, and \<^verbatim>\<open>Serial.print\<close> appends.
\<close>

record CRGB =
  r :: "8 word"
  g :: "8 word"
  b :: "8 word"

definition Serial_print :: "string \<Rightarrow> string \<Rightarrow> string" where
  "Serial_print s out = out @ s"

text \<open>
  \<^verbatim>\<open>%02X\<close> applied to a channel: the value is below 256, so the conversion prints exactly
  two upper-case hexadecimal digits, the high one first.
\<close>

definition hex_digit :: "nat \<Rightarrow> char" where
  "hex_digit n = ''0123456789ABCDEF'' ! n"

definition fmt_02X :: "8 word \<Rightarrow> string" where
  "fmt_02X v = [hex_digit (unat v div 16), hex_digit (unat v mod 16)]"

text \<open>\<^verbatim>\<open>sprintf(buf, "%02X%02X%02X,", color.r, color.g, color.b)\<close>\<close>

definition sprintf_pixel :: "CRGB \<Rightarrow> string" where
  "sprintf_pixel color = fmt_02X (r color) @ fmt_02X (g color) @ fmt_02X (b color) @ '',''"

text \<open>
  The inner loop \<^verbatim>\<open>for (int x = 0; x < MATRIX_WIDTH; x++)\<close> of one row. The \<^verbatim>\<open>int\<close>
  counters are converted to \<^verbatim>\<open>uint8_t\<close> at the call of \<^verbatim>\<open>XY\<close>.
\<close>

function frame_cols ::
  "panel_config \<Rightarrow> (nat \<Rightarrow> CRGB) \<Rightarrow> int \<Rightarrow> int \<Rightarrow> string \<Rightarrow> string" where
  "frame_cols c leds y x out =
     (if x < MATRIX_WIDTH c
      then frame_cols c leds y (x + 1)
             (Serial_print (sprintf_pixel (leds (unat (XY c (word_of_int x) (word_of_int y))))) out)
      else out)"
  by pat_completeness auto
termination
  by (relation "measure (\<lambda>(c, leds, y, x, out). nat (MATRIX_WIDTH c - x))") auto

text \<open>The outer loop \<^verbatim>\<open>for (int y = 0; y < MATRIX_HEIGHT; y++)\<close>.\<close>

function frame_rows ::
  "panel_config \<Rightarrow> (nat \<Rightarrow> CRGB) \<Rightarrow> int \<Rightarrow> string \<Rightarrow> string" where
  "frame_rows c leds y out =
     (if y < MATRIX_HEIGHT c
      then frame_rows c leds (y + 1) (frame_cols c leds y 0 out)
      else out)"
  by pat_completeness auto
termination
  by (relation "measure (\<lambda>(c, leds, y, out). nat (MATRIX_HEIGHT c - y))") auto

declare frame_cols.simps [simp del] frame_rows.simps [simp del]

definition sendFrameData :: "panel_config \<Rightarrow> (nat \<Rightarrow> CRGB) \<Rightarrow> string \<Rightarrow> string" where
  "sendFrameData c leds out = frame_rows c leds 0 (Serial_print ''FRAME:'' out)"

text \<open>
  Reading a printed channel back: the value of a string of upper-case hexadecimal digits.
  This is the reader's side of the frame format, used to say what the digits mean.
\<close>

definition hex_digit_value :: "char \<Rightarrow> nat" where
  "hex_digit_value ch =
     (let k = (of_char ch :: nat) in if k < 58 then k - 48 else k - 55)"

definition hex_value :: "string \<Rightarrow> nat" where
  "hex_value s = foldl (\<lambda>acc ch. 16 * acc + hex_digit_value ch) 0 s"

subsection \<open>The palette\<close>

text \<open>Namespace \<^verbatim>\<open>MatrixColors\<close>; \<open>CRGB(r, g, b)\<close> is the three-channel constructor.\<close>

definition BLACK :: CRGB where "BLACK = \<lparr>r = 0, g = 0, b = 0\<rparr>"
definition RED :: CRGB where "RED = \<lparr>r = 60, g = 0, b = 0\<rparr>"
definition GREEN :: CRGB where "GREEN = \<lparr>r = 0, g = 60, b = 0\<rparr>"
definition BLUE :: CRGB where "BLUE = \<lparr>r = 0, g = 0, b = 60\<rparr>"
definition YELLOW :: CRGB where "YELLOW = \<lparr>r = 60, g = 60, b = 0\<rparr>"
definition CYAN :: CRGB where "CYAN = \<lparr>r = 0, g = 60, b = 60\<rparr>"
definition MAGENTA :: CRGB where "MAGENTA = \<lparr>r = 60, g = 0, b = 60\<rparr>"
definition WHITE :: CRGB where "WHITE = \<lparr>r = 60, g = 60, b = 60\<rparr>"
definition ORANGE :: CRGB where "ORANGE = \<lparr>r = 60, g = 30, b = 0\<rparr>"
definition PURPLE :: CRGB where "PURPLE = \<lparr>r = 30, g = 0, b = 60\<rparr>"

text \<open>A colour respects the brightness ceiling when none of its channels exceeds it.\<close>

definition within_brightness_limit :: "CRGB \<Rightarrow> bool" where
  "within_brightness_limit color \<longleftrightarrow>
     uint (r color) \<le> BRIGHTNESS_LIMIT \<and> uint (g color) \<le> BRIGHTNESS_LIMIT \<and>
     uint (b color) \<le> BRIGHTNESS_LIMIT"

section \<open>Arithmetic of the index\<close>

lemma u8_of_int: "0 \<le> k \<Longrightarrow> k < 256 \<Longrightarrow> uint (word_of_int k :: 8 word) = k"
  by (simp add: uint_word_of_int_eq take_bit_int_eq_self)

lemma u16_of_int: "0 \<le> k \<Longrightarrow> k < 65536 \<Longrightarrow> uint (word_of_int k :: 16 word) = k"
  by (simp add: uint_word_of_int_eq take_bit_int_eq_self)

lemma u8_bound: "uint (x :: 8 word) < 256"
  using uint_bounded [of x] by simp

lemma index_range:
  fixes x y W H :: int
  assumes "0 \<le> x" "x < W" "0 \<le> y" "y < H"
  shows "0 \<le> y * W + x" and "y * W + x < W * H"
proof -
  from assms show "0 \<le> y * W + x" by simp
  from assms have "y * W \<le> (H - 1) * W"
    by (intro mult_right_mono) auto
  with assms show "y * W + x < W * H"
    by (simp add: algebra_simps)
qed

lemma area_le:
  assumes "geometry_ok c"
  shows "MATRIX_WIDTH c * MATRIX_HEIGHT c \<le> 65536"
proof -
  from assms have "MATRIX_WIDTH c * MATRIX_HEIGHT c \<le> 256 * 256"
    unfolding geometry_ok_def by (intro mult_mono) auto
  then show ?thesis by simp
qed

lemma clamp_flip_range:
  assumes "0 < N" "0 \<le> v"
  shows "0 \<le> clamp_flip N flip v" and "clamp_flip N flip v < N"
  using assms by (auto simp: clamp_flip_def Let_def)

lemma mapPosition_range:
  assumes "0 < W" "0 < H" "0 \<le> x" "0 \<le> y"
  shows "0 \<le> mapPosition W H s fx fy x y" and "mapPosition W H s fx fy x y < W * H"
proof -
  let ?x = "clamp_flip W fx x" and ?y = "clamp_flip H fy y"
  have x: "0 \<le> ?x" "?x < W" and y: "0 \<le> ?y" "?y < H"
    using assms by (simp_all add: clamp_flip_range)
  then have x': "0 \<le> W - 1 - ?x" "W - 1 - ?x < W" by simp_all
  show "0 \<le> mapPosition W H s fx fy x y"
    using index_range(1) [OF x y] index_range(1) [OF x' y]
    by (simp add: mapPosition_def Let_def)
  show "mapPosition W H s fx fy x y < W * H"
    using index_range(2) [OF x y] index_range(2) [OF x' y]
    by (simp add: mapPosition_def Let_def)
qed

lemma odd_and_one: "(k AND 1 \<noteq> 0) = odd (k :: int)"
  by (simp add: and_one_eq mod_2_eq_odd)

subsection \<open>The clamp and the flip on 8-bit coordinates\<close>

lemma clamp_u8:
  fixes v :: "8 word"
  assumes "0 < N" "N \<le> 256"
  shows "uint (if uint v \<ge> N then word_of_int (N - 1) else v) = min (uint v) (N - 1)"
proof (cases "uint v \<ge> N")
  case True
  from assms have "uint (word_of_int (N - 1) :: 8 word) = N - 1"
    by (intro u8_of_int) auto
  with True show ?thesis by (simp del: of_int_diff)
next
  case False
  then show ?thesis by simp
qed

lemma flip_u8:
  fixes w :: "8 word"
  assumes "N \<le> 256" "uint w < N"
  shows "uint (if flip then word_of_int ((N - 1) - uint w) else w) =
           (if flip then (N - 1) - uint w else uint w)"
proof (cases flip)
  case True
  have "0 \<le> uint w" by simp
  with assms have "uint (word_of_int ((N - 1) - uint w) :: 8 word) = (N - 1) - uint w"
    by (intro u8_of_int) linarith+
  with True show ?thesis by (simp del: of_int_diff)
next
  case False
  then show ?thesis by simp
qed

lemma clamp_flip_u8:
  fixes v :: "8 word"
  assumes "0 < N" "N \<le> 256"
  defines "w \<equiv> (if uint v \<ge> N then word_of_int (N - 1) else v)"
  shows "uint (if flip then word_of_int ((N - 1) - uint w) else w)
         = clamp_flip N flip (uint v)"
proof -
  have w: "uint w = min (uint v) (N - 1)"
    unfolding w_def using assms(1,2) by (rule clamp_u8)
  with assms(1) have "uint w < N" by simp
  with assms(2) have "uint (if flip then word_of_int ((N - 1) - uint w) else w) =
           (if flip then (N - 1) - uint w else uint w)"
    by (rule flip_u8)
  with w show ?thesis by (simp add: clamp_flip_def Let_def)
qed

subsection \<open>The source function computes the specified index\<close>

lemma XY_refines:
  assumes "geometry_ok c"
  shows "uint (XY c x y) =
           mapPosition (MATRIX_WIDTH c) (MATRIX_HEIGHT c) (PANEL_WIRING_SERPENTINE c \<noteq> 0)
             (PANEL_FLIP_X c \<noteq> 0) (PANEL_FLIP_Y c \<noteq> 0) (uint x) (uint y)"
proof -
  let ?W = "MATRIX_WIDTH c" and ?H = "MATRIX_HEIGHT c"
  let ?s = "PANEL_WIRING_SERPENTINE c \<noteq> 0"
  let ?fx = "PANEL_FLIP_X c \<noteq> 0" and ?fy = "PANEL_FLIP_Y c \<noteq> 0"
  let ?m = "mapPosition ?W ?H ?s ?fx ?fy (uint x) (uint y)"
  from assms have geo: "0 < ?W" "?W \<le> 256" "0 < ?H" "?H \<le> 256"
    by (simp_all add: geometry_ok_def)
  define x1 :: "8 word" where "x1 = (if uint x \<ge> ?W then word_of_int (?W - 1) else x)"
  define y1 :: "8 word" where "y1 = (if uint y \<ge> ?H then word_of_int (?H - 1) else y)"
  define y2 :: "8 word" where "y2 = (if ?fy then word_of_int ((?H - 1) - uint y1) else y1)"
  define x2 :: "8 word" where "x2 = (if ?fx then word_of_int ((?W - 1) - uint x1) else x1)"
  have x2: "uint x2 = clamp_flip ?W ?fx (uint x)"
    unfolding x2_def x1_def using geo(1,2) by (rule clamp_flip_u8)
  have y2: "uint y2 = clamp_flip ?H ?fy (uint y)"
    unfolding y2_def y1_def using geo(3,4) by (rule clamp_flip_u8)
  have XY: "XY c x y = word_of_int
      (if ?s \<and> odd (uint y2) then uint y2 * ?W + (?W - 1 - uint x2) else uint y2 * ?W + uint x2)"
    unfolding XY_def Let_def x1_def y1_def x2_def y2_def odd_and_one by simp
  have m: "?m = (if ?s \<and> odd (uint y2) then uint y2 * ?W + (?W - 1 - uint x2)
                 else uint y2 * ?W + uint x2)"
    by (simp only: mapPosition_def Let_def x2 y2)
  have "0 \<le> ?m" "?m < ?W * ?H"
    using geo by (simp_all add: mapPosition_range)
  with area_le [OF assms] have "0 \<le> ?m" "?m < 65536" by simp_all
  then have "uint (word_of_int ?m :: 16 word) = ?m" by (rule u16_of_int)
  with XY m show ?thesis by simp
qed

lemma geometry_ok_board: "geometry_ok board_config"
  by (simp add: geometry_ok_def board_config_def)

subsection \<open>The integer mapper on the grid\<close>

lemma mapPosition_clamped:
  "mapPosition W H s fx fy (min x (W - 1)) (min y (H - 1)) = mapPosition W H s fx fy x y"
  by (simp add: mapPosition_def clamp_flip_def Let_def)

lemma mapPosition_plain:
  "mapPosition W H s False False x y =
     (let yc = min y (H - 1); xc = min x (W - 1)
      in if s \<and> odd yc then yc * W + (W - 1 - xc) else yc * W + xc)"
  by (simp add: mapPosition_def clamp_flip_def Let_def)

lemma mapPosition_flipY:
  assumes "0 < H" "0 \<le> y"
  shows "mapPosition W H s fx True x y = mapPosition W H s fx False x ((H - 1) - min y (H - 1))"
  using assms by (simp add: mapPosition_def clamp_flip_def Let_def)

lemma mapPosition_flipX:
  assumes "0 < W" "0 \<le> x"
  shows "mapPosition W H s True fy x y = mapPosition W H s False fy ((W - 1) - min x (W - 1)) y"
  using assms by (simp add: mapPosition_def clamp_flip_def Let_def)

lemma reflect_u8:
  fixes v :: "8 word"
  assumes "0 < N" "N \<le> 256"
  shows "uint (word_of_int ((N - 1) - min (uint v) (N - 1)) :: 8 word) = (N - 1) - min (uint v) (N - 1)"
proof -
  have "0 \<le> (N - 1) - min k (N - 1) \<and> (N - 1) - min k (N - 1) < 256" if "0 \<le> k" for k
    using that assms by auto
  from this [of "uint v"] show ?thesis by (intro u8_of_int) simp_all
qed

lemma last_u8:
  assumes "0 < N" "N \<le> 256"
  shows "uint (word_of_int (N - 1) :: 8 word) = N - 1"
  using assms by (intro u8_of_int) simp_all

lemma geometry_ok_flag_update:
  "geometry_ok (c\<lparr>PANEL_FLIP_Y := v\<rparr>) = geometry_ok c"
  "geometry_ok (c\<lparr>PANEL_FLIP_X := v\<rparr>) = geometry_ok c"
  by (simp_all add: geometry_ok_def)

lemma mapPosition_in_grid:
  assumes "0 \<le> x" "x < W" "0 \<le> y" "y < H"
  shows "mapPosition W H s fx fy x y =
     (let y' = (if fy then H - 1 - y else y); x' = (if fx then W - 1 - x else x)
      in y' * W + (if s \<and> odd y' then W - 1 - x' else x'))"
  using assms by (simp add: mapPosition_def clamp_flip_def Let_def)

lemma index_unique:
  fixes a b a' b' W :: int
  assumes "0 \<le> a" "a < W" "0 \<le> a'" "a' < W" "b * W + a = b' * W + a'"
  shows "b = b' \<and> a = a'"
proof -
  have "(b * W + a) div W = b" "(b' * W + a') div W = b'"
    using assms(1-4) by simp_all
  with arg_cong [OF assms(5), of "\<lambda>k. k div W"] have "b = b'" by simp
  with assms(5) show ?thesis by simp
qed

lemma mapPosition_inj:
  assumes "0 \<le> x" "x < W" "0 \<le> y" "y < H" "0 \<le> x'" "x' < W" "0 \<le> y'" "y' < H"
    and eq: "mapPosition W H s fx fy x y = mapPosition W H s fx fy x' y'"
  shows "x = x' \<and> y = y'"
proof -
  define yf where "yf = (if fy then H - 1 - y else y)"
  define yf' where "yf' = (if fy then H - 1 - y' else y')"
  define xf where "xf = (if fx then W - 1 - x else x)"
  define xf' where "xf' = (if fx then W - 1 - x' else x')"
  define xs where "xs = (if s \<and> odd yf then W - 1 - xf else xf)"
  define xs' where "xs' = (if s \<and> odd yf' then W - 1 - xf' else xf')"
  have xs: "0 \<le> xs" "xs < W" and xs': "0 \<le> xs'" "xs' < W"
    using assms(1,2,5,6) by (auto simp: xs_def xs'_def xf_def xf'_def)
  have "mapPosition W H s fx fy x y = yf * W + xs"
    using assms(1-4) by (simp add: mapPosition_in_grid Let_def yf_def xf_def xs_def)
  moreover have "mapPosition W H s fx fy x' y' = yf' * W + xs'"
    using assms(5-8) by (simp add: mapPosition_in_grid Let_def yf'_def xf'_def xs'_def)
  ultimately have "yf * W + xs = yf' * W + xs'"
    using eq by simp
  with xs xs' have *: "yf = yf' \<and> xs = xs'" by (intro index_unique)
  then have y: "y = y'" by (auto simp: yf_def yf'_def split: if_splits)
  from * have "xf = xf'" by (auto simp: xs_def xs'_def split: if_splits)
  then have "x = x'" by (auto simp: xf_def xf'_def split: if_splits)
  with y show ?thesis by simp
qed

lemma mapPosition_surj:
  assumes "0 < W" "0 \<le> i" "i < W * H"
  shows "\<exists>x y. 0 \<le> x \<and> x < W \<and> 0 \<le> y \<and> y < H \<and> mapPosition W H s fx fy x y = i"
proof -
  define yf where "yf = i div W"
  define xs where "xs = i mod W"
  define xf where "xf = (if s \<and> odd yf then W - 1 - xs else xs)"
  define x where "x = (if fx then W - 1 - xf else xf)"
  define y where "y = (if fy then H - 1 - yf else yf)"
  have xs: "0 \<le> xs" "xs < W" using assms(1) by (simp_all add: xs_def)
  have i: "yf * W + xs = i" by (simp add: yf_def xs_def)
  have "0 \<le> yf" using assms by (simp add: yf_def pos_imp_zdiv_nonneg_iff)
  moreover have "yf < H"
  proof -
    from i xs(1) assms(3) have "yf * W < H * W" by (simp add: mult.commute)
    with assms(1) show ?thesis by (simp add: mult_less_cancel_right)
  qed
  ultimately have yf: "0 \<le> yf" "yf < H" .
  have x: "0 \<le> x" "x < W" using xs by (auto simp: x_def xf_def)
  have y: "0 \<le> y" "y < H" using yf by (auto simp: y_def)
  have "mapPosition W H s fx fy x y = i"
    using x y i by (auto simp: mapPosition_in_grid Let_def x_def y_def xf_def)
  with x y show ?thesis by blast
qed

section \<open>Properties of the mapper\<close>

text \<open>
  C1. For every pair of coordinates the mapper returns an index between 0 and
  \<open>W * H - 1\<close>, and so between 0 and 63 on the 8 by 8 panel. The function is total: its
  result type has no failure value, and no input is refused.
\<close>

theorem XY_in_range:
  assumes "geometry_ok c"
  shows "0 \<le> uint (XY c x y) \<and> uint (XY c x y) \<le> NUM_LEDS c - 1 \<and>
         (MATRIX_WIDTH c = 8 \<and> MATRIX_HEIGHT c = 8 \<longrightarrow> uint (XY c x y) \<le> 63)"
proof -
  from assms have geo: "0 < MATRIX_WIDTH c" "0 < MATRIX_HEIGHT c"
    by (simp_all add: geometry_ok_def)
  have "uint (XY c x y) < MATRIX_WIDTH c * MATRIX_HEIGHT c"
    unfolding XY_refines [OF assms] using geo by (intro mapPosition_range) simp_all
  then show ?thesis by (auto simp: NUM_LEDS_def)
qed

theorem XY_in_range_witness:
  "geometry_ok board_config \<and> 0 \<le> uint (XY board_config 255 255) \<and>
   uint (XY board_config 255 255) \<le> NUM_LEDS board_config - 1 \<and>
   uint (XY board_config 255 255) \<le> 63"
proof -
  have "MATRIX_WIDTH board_config = 8" "MATRIX_HEIGHT board_config = 8"
    by (simp_all add: board_config_def)
  with XY_in_range [OF geometry_ok_board, of 255 255] geometry_ok_board
  show ?thesis by simp
qed

text \<open>
  C2. With row-major wiring and no flips the index is \<open>y * W + x\<close>, taken on the clamped
  coordinates; for coordinates inside the grid these are \<open>x\<close> and \<open>y\<close> themselves. On
  the 8 by 8 panel the corners (0,0), (7,0), (0,1), (7,7) map to 0, 7, 8 and 63.
\<close>

theorem XY_row_major:
  assumes "geometry_ok c" "PANEL_WIRING_SERPENTINE c = 0" "PANEL_FLIP_X c = 0" "PANEL_FLIP_Y c = 0"
  shows "uint (XY c x y) =
           min (uint y) (MATRIX_HEIGHT c - 1) * MATRIX_WIDTH c + min (uint x) (MATRIX_WIDTH c - 1) \<and>
         (uint x < MATRIX_WIDTH c \<and> uint y < MATRIX_HEIGHT c \<longrightarrow>
            uint (XY c x y) = uint y * MATRIX_WIDTH c + uint x) \<and>
         (MATRIX_WIDTH c = 8 \<and> MATRIX_HEIGHT c = 8 \<longrightarrow>
            XY c 0 0 = 0 \<and> XY c 7 0 = 7 \<and> XY c 0 1 = 8 \<and> XY c 7 7 = 63)"
proof -
  have gen: "uint (XY c x y) =
      min (uint y) (MATRIX_HEIGHT c - 1) * MATRIX_WIDTH c + min (uint x) (MATRIX_WIDTH c - 1)"
    using assms(2-4) by (simp add: XY_refines [OF assms(1)] mapPosition_plain Let_def)
  have inr: "uint (XY c x y) = uint y * MATRIX_WIDTH c + uint x"
    if "uint x < MATRIX_WIDTH c" "uint y < MATRIX_HEIGHT c"
    using that by (simp add: gen)
  have pts: "XY c 0 0 = 0 \<and> XY c 7 0 = 7 \<and> XY c 0 1 = 8 \<and> XY c 7 7 = 63"
    if "MATRIX_WIDTH c = 8" "MATRIX_HEIGHT c = 8"
    using that assms(2-4) by (simp add: XY_def)
  from gen inr pts show ?thesis by blast
qed

theorem XY_row_major_witness:
  "geometry_ok board_config \<and> PANEL_WIRING_SERPENTINE board_config = 0 \<and>
   PANEL_FLIP_X board_config = 0 \<and> PANEL_FLIP_Y board_config = 0 \<and>
   uint (XY board_config 3 5) = 5 * 8 + 3 \<and>
   XY board_config 0 0 = 0 \<and> XY board_config 7 0 = 7 \<and>
   XY board_config 0 1 = 8 \<and> XY board_config 7 7 = 63"
proof -
  have cfg: "PANEL_WIRING_SERPENTINE board_config = 0" "PANEL_FLIP_X board_config = 0"
    "PANEL_FLIP_Y board_config = 0" "MATRIX_WIDTH board_config = 8"
    "MATRIX_HEIGHT board_config = 8"
    by (simp_all add: board_config_def)
  from XY_row_major [OF geometry_ok_board cfg(1-3), of 3 5] cfg geometry_ok_board
  show ?thesis by simp
qed

text \<open>
  C3. A column at or beyond the width is treated as the last column, and a row at or
  beyond the height as the last row: the mapper returns what it returns for \<open>W - 1\<close>
  (respectively \<open>H - 1\<close>), and no input is refused. On the panel of the header,
  \<open>XY 8 0 = XY 7 0 = 7\<close>.
\<close>

theorem XY_clamps:
  assumes "geometry_ok c"
  shows "(MATRIX_WIDTH c \<le> uint x \<longrightarrow> XY c x y = XY c (word_of_int (MATRIX_WIDTH c - 1)) y) \<and>
         (MATRIX_HEIGHT c \<le> uint y \<longrightarrow> XY c x y = XY c x (word_of_int (MATRIX_HEIGHT c - 1))) \<and>
         XY board_config 8 0 = XY board_config 7 0 \<and> XY board_config 7 0 = 7"
proof -
  let ?W = "MATRIX_WIDTH c" and ?H = "MATRIX_HEIGHT c"
  let ?m = "mapPosition ?W ?H (PANEL_WIRING_SERPENTINE c \<noteq> 0)
              (PANEL_FLIP_X c \<noteq> 0) (PANEL_FLIP_Y c \<noteq> 0)"
  from assms have geo: "0 < ?W" "?W \<le> 256" "0 < ?H" "?H \<le> 256"
    by (simp_all add: geometry_ok_def)
  have XY: "uint (XY c x y) = ?m (uint x) (uint y)" for x y
    using assms by (rule XY_refines)
  have cx: "XY c x y = XY c (word_of_int (?W - 1)) y" if "?W \<le> uint x"
  proof (rule word_uint_eqI)
    have "?m (uint x) (uint y) = ?m (min (uint x) (?W - 1)) (uint y)"
      using mapPosition_clamped [of ?W ?H _ _ _ "uint x" "uint y"]
        mapPosition_clamped [of ?W ?H _ _ _ "min (uint x) (?W - 1)" "uint y"]
      by simp
    also have "min (uint x) (?W - 1) = uint (word_of_int (?W - 1) :: 8 word)"
      using that last_u8 [OF geo(1,2)] by simp
    finally show "uint (XY c x y) = uint (XY c (word_of_int (?W - 1)) y)"
      by (simp only: XY)
  qed
  have cy: "XY c x y = XY c x (word_of_int (?H - 1))" if "?H \<le> uint y"
  proof (rule word_uint_eqI)
    have "?m (uint x) (uint y) = ?m (uint x) (min (uint y) (?H - 1))"
      using mapPosition_clamped [of ?W ?H _ _ _ "uint x" "uint y"]
        mapPosition_clamped [of ?W ?H _ _ _ "uint x" "min (uint y) (?H - 1)"]
      by simp
    also have "min (uint y) (?H - 1) = uint (word_of_int (?H - 1) :: 8 word)"
      using that last_u8 [OF geo(3,4)] by simp
    finally show "uint (XY c x y) = uint (XY c x (word_of_int (?H - 1)))"
      by (simp only: XY)
  qed
  have "XY board_config 8 0 = XY board_config 7 0" "XY board_config 7 0 = 7"
    by (simp_all add: XY_def board_config_def)
  with cx cy show ?thesis by blast
qed

theorem XY_clamps_witness:
  "geometry_ok board_config \<and> MATRIX_WIDTH board_config \<le> uint (200 :: 8 word) \<and>
   MATRIX_HEIGHT board_config \<le> uint (9 :: 8 word) \<and>
   XY board_config 200 3 = XY board_config 7 3 \<and>
   XY board_config 2 9 = XY board_config 2 7 \<and>
   XY board_config 8 0 = XY board_config 7 0 \<and> XY board_config 7 0 = 7"
proof -
  have cfg: "MATRIX_WIDTH board_config = 8" "MATRIX_HEIGHT board_config = 8"
    by (simp_all add: board_config_def)
  from XY_clamps [OF geometry_ok_board, of 200 3] XY_clamps [OF geometry_ok_board, of 2 9]
    cfg geometry_ok_board
  show ?thesis by simp
qed

text \<open>
  C4. With serpentine wiring and no flips, odd rows run right to left,
  \<open>index = y * W + (W - 1 - x)\<close>, and even rows run left to right, \<open>index = y * W + x\<close>
  (on the clamped coordinates). On the 8 by 8 panel (0,0), (7,0), (0,1), (7,1) map to 0, 7,
  15 and 8.
\<close>

theorem XY_serpentine:
  assumes "geometry_ok c" "PANEL_WIRING_SERPENTINE c \<noteq> 0" "PANEL_FLIP_X c = 0" "PANEL_FLIP_Y c = 0"
  shows "uint (XY c x y) =
           (let yc = min (uint y) (MATRIX_HEIGHT c - 1); xc = min (uint x) (MATRIX_WIDTH c - 1)
            in if odd yc then yc * MATRIX_WIDTH c + (MATRIX_WIDTH c - 1 - xc)
               else yc * MATRIX_WIDTH c + xc) \<and>
         (MATRIX_WIDTH c = 8 \<and> MATRIX_HEIGHT c = 8 \<longrightarrow>
            XY c 0 0 = 0 \<and> XY c 7 0 = 7 \<and> XY c 0 1 = 15 \<and> XY c 7 1 = 8)"
proof -
  have gen: "uint (XY c x y) =
           (let yc = min (uint y) (MATRIX_HEIGHT c - 1); xc = min (uint x) (MATRIX_WIDTH c - 1)
            in if odd yc then yc * MATRIX_WIDTH c + (MATRIX_WIDTH c - 1 - xc)
               else yc * MATRIX_WIDTH c + xc)"
    using assms(2-4) by (simp add: XY_refines [OF assms(1)] mapPosition_plain Let_def)
  have pts: "XY c 0 0 = 0 \<and> XY c 7 0 = 7 \<and> XY c 0 1 = 15 \<and> XY c 7 1 = 8"
    if "MATRIX_WIDTH c = 8" "MATRIX_HEIGHT c = 8"
    using that assms(2-4) by (simp add: XY_def)
  from gen pts show ?thesis by blast
qed

theorem XY_serpentine_witness:
  "geometry_ok (board_config\<lparr>PANEL_WIRING_SERPENTINE := 1\<rparr>) \<and>
   PANEL_WIRING_SERPENTINE (board_config\<lparr>PANEL_WIRING_SERPENTINE := 1\<rparr>) \<noteq> 0 \<and>
   PANEL_FLIP_X (board_config\<lparr>PANEL_WIRING_SERPENTINE := 1\<rparr>) = 0 \<and>
   PANEL_FLIP_Y (board_config\<lparr>PANEL_WIRING_SERPENTINE := 1\<rparr>) = 0 \<and>
   uint (XY (board_config\<lparr>PANEL_WIRING_SERPENTINE := 1\<rparr>) 2 3) = 3 * 8 + (8 - 1 - 2) \<and>
   XY (board_config\<lparr>PANEL_WIRING_SERPENTINE := 1\<rparr>) 0 0 = 0 \<and>
   XY (board_config\<lparr>PANEL_WIRING_SERPENTINE := 1\<rparr>) 7 0 = 7 \<and>
   XY (board_config\<lparr>PANEL_WIRING_SERPENTINE := 1\<rparr>) 0 1 = 15 \<and>
   XY (board_config\<lparr>PANEL_WIRING_SERPENTINE := 1\<rparr>) 7 1 = 8"
proof -
  let ?c = "board_config\<lparr>PANEL_WIRING_SERPENTINE := 1\<rparr>"
  have cfg: "PANEL_WIRING_SERPENTINE ?c \<noteq> 0" "PANEL_FLIP_X ?c = 0" "PANEL_FLIP_Y ?c = 0"
    "MATRIX_WIDTH ?c = 8" "MATRIX_HEIGHT ?c = 8"
    by (simp_all add: board_config_def)
  have geo: "geometry_ok ?c" by (simp add: geometry_ok_def board_config_def)
  from XY_serpentine [OF geo cfg(1-3), of 2 3] cfg geo
  show ?thesis by (simp add: Let_def)
qed

text \<open>
  C5. The flips reflect the clamped coordinates before the topology pass: with the Y flip
  set the mapper returns what the same configuration without the Y flip returns at row
  \<open>(H - 1) - y\<close>, and, independently, with the X flip set what the configuration without
  the X flip returns at column \<open>(W - 1) - x\<close>. This holds for either wiring, so the
  serpentine parity is taken of the reflected row. On the row-major 8 by 8 panel, with the Y
  flip (0,0) maps to 56 and (0,7) to 0; with the X flip (0,0) maps to 7 and (7,0) to 0.
\<close>

theorem XY_flips:
  assumes "geometry_ok c"
  shows "(PANEL_FLIP_Y c \<noteq> 0 \<longrightarrow>
            XY c x y = XY (c\<lparr>PANEL_FLIP_Y := 0\<rparr>) x
              (word_of_int ((MATRIX_HEIGHT c - 1) - min (uint y) (MATRIX_HEIGHT c - 1)))) \<and>
         (PANEL_FLIP_X c \<noteq> 0 \<longrightarrow>
            XY c x y = XY (c\<lparr>PANEL_FLIP_X := 0\<rparr>)
              (word_of_int ((MATRIX_WIDTH c - 1) - min (uint x) (MATRIX_WIDTH c - 1))) y) \<and>
         XY (board_config\<lparr>PANEL_FLIP_Y := 1\<rparr>) 0 0 = 56 \<and>
         XY (board_config\<lparr>PANEL_FLIP_Y := 1\<rparr>) 0 7 = 0 \<and>
         XY (board_config\<lparr>PANEL_FLIP_X := 1\<rparr>) 0 0 = 7 \<and>
         XY (board_config\<lparr>PANEL_FLIP_X := 1\<rparr>) 7 0 = 0"
proof -
  let ?W = "MATRIX_WIDTH c" and ?H = "MATRIX_HEIGHT c"
  from assms have geo: "0 < ?W" "?W \<le> 256" "0 < ?H" "?H \<le> 256"
    by (simp_all add: geometry_ok_def)
  have fy: "XY c x y = XY (c\<lparr>PANEL_FLIP_Y := 0\<rparr>) x (word_of_int ((?H - 1) - min (uint y) (?H - 1)))"
    if "PANEL_FLIP_Y c \<noteq> 0"
  proof (rule word_uint_eqI)
    have "0 \<le> uint y" by simp
    from mapPosition_flipY [OF geo(3) this] that assms
    show "uint (XY c x y) =
        uint (XY (c\<lparr>PANEL_FLIP_Y := 0\<rparr>) x (word_of_int ((?H - 1) - min (uint y) (?H - 1))))"
      by (simp add: XY_refines geometry_ok_flag_update reflect_u8 [OF geo(3,4)]
          del: of_int_diff)
  qed
  have fx: "XY c x y = XY (c\<lparr>PANEL_FLIP_X := 0\<rparr>) (word_of_int ((?W - 1) - min (uint x) (?W - 1))) y"
    if "PANEL_FLIP_X c \<noteq> 0"
  proof (rule word_uint_eqI)
    have "0 \<le> uint x" by simp
    from mapPosition_flipX [OF geo(1) this] that assms
    show "uint (XY c x y) =
        uint (XY (c\<lparr>PANEL_FLIP_X := 0\<rparr>) (word_of_int ((?W - 1) - min (uint x) (?W - 1))) y)"
      by (simp add: XY_refines geometry_ok_flag_update reflect_u8 [OF geo(1,2)]
          del: of_int_diff)
  qed
  have pts: "XY (board_config\<lparr>PANEL_FLIP_Y := 1\<rparr>) 0 0 = 56"
    "XY (board_config\<lparr>PANEL_FLIP_Y := 1\<rparr>) 0 7 = 0"
    "XY (board_config\<lparr>PANEL_FLIP_X := 1\<rparr>) 0 0 = 7"
    "XY (board_config\<lparr>PANEL_FLIP_X := 1\<rparr>) 7 0 = 0"
    by (simp_all add: XY_def board_config_def)
  from fy fx pts show ?thesis by blast
qed

theorem XY_flips_witness:
  "geometry_ok (board_config\<lparr>PANEL_FLIP_X := 1, PANEL_FLIP_Y := 1\<rparr>) \<and>
   PANEL_FLIP_Y (board_config\<lparr>PANEL_FLIP_X := 1, PANEL_FLIP_Y := 1\<rparr>) \<noteq> 0 \<and>
   PANEL_FLIP_X (board_config\<lparr>PANEL_FLIP_X := 1, PANEL_FLIP_Y := 1\<rparr>) \<noteq> 0 \<and>
   XY (board_config\<lparr>PANEL_FLIP_X := 1, PANEL_FLIP_Y := 1\<rparr>) 2 5 =
     XY (board_config\<lparr>PANEL_FLIP_X := 1, PANEL_FLIP_Y := 0\<rparr>) 2 2 \<and>
   XY (board_config\<lparr>PANEL_FLIP_X := 1, PANEL_FLIP_Y := 1\<rparr>) 2 5 =
     XY (board_config\<lparr>PANEL_FLIP_Y := 1, PANEL_FLIP_X := 0\<rparr>) 5 5 \<and>
   XY (board_config\<lparr>PANEL_FLIP_Y := 1\<rparr>) 0 0 = 56 \<and>
   XY (board_config\<lparr>PANEL_FLIP_Y := 1\<rparr>) 0 7 = 0 \<and>
   XY (board_config\<lparr>PANEL_FLIP_X := 1\<rparr>) 0 0 = 7 \<and>
   XY (board_config\<lparr>PANEL_FLIP_X := 1\<rparr>) 7 0 = 0"
proof -
  let ?c = "board_config\<lparr>PANEL_FLIP_X := 1, PANEL_FLIP_Y := 1\<rparr>"
  have cfg: "PANEL_FLIP_Y ?c \<noteq> 0" "PANEL_FLIP_X ?c \<noteq> 0"
    "MATRIX_WIDTH ?c = 8" "MATRIX_HEIGHT ?c = 8"
    by (simp_all add: board_config_def)
  have geo: "geometry_ok ?c" by (simp add: geometry_ok_def board_config_def)
  from XY_flips [OF geo, of 2 5] cfg geo
  show ?thesis by (simp add: XY_def board_config_def)
qed

text \<open>
  C6. For every configuration (either wiring, any flip settings) the mapper is a bijection
  from the grid of in-range coordinates onto the indices \<open>0, \<dots>, W * H - 1\<close>: every
  physical index is the image of exactly one in-range pair.
\<close>

theorem XY_bijection:
  assumes "geometry_ok c"
  shows "bij_betw (\<lambda>(x, y). XY c x y)
           {(x, y). uint x < MATRIX_WIDTH c \<and> uint y < MATRIX_HEIGHT c}
           {i. uint i < NUM_LEDS c}"
proof -
  let ?W = "MATRIX_WIDTH c" and ?H = "MATRIX_HEIGHT c"
  let ?m = "mapPosition ?W ?H (PANEL_WIRING_SERPENTINE c \<noteq> 0)
              (PANEL_FLIP_X c \<noteq> 0) (PANEL_FLIP_Y c \<noteq> 0)"
  let ?grid = "{(x :: 8 word, y :: 8 word). uint x < ?W \<and> uint y < ?H}"
  from assms have geo: "0 < ?W" "?W \<le> 256" "0 < ?H" "?H \<le> 256"
    by (simp_all add: geometry_ok_def)
  have XY: "uint (XY c x y) = ?m (uint x) (uint y)" for x y
    using assms by (rule XY_refines)
  have inj: "inj_on (\<lambda>(x, y). XY c x y) ?grid"
  proof (rule inj_onI)
    fix p q
    assume p: "p \<in> ?grid" and q: "q \<in> ?grid"
      and eq: "(case p of (x, y) \<Rightarrow> XY c x y) = (case q of (x, y) \<Rightarrow> XY c x y)"
    obtain x y where pq: "p = (x, y)" by (cases p)
    obtain x' y' where qq: "q = (x', y')" by (cases q)
    from p q pq qq have r: "uint x < ?W" "uint y < ?H" "uint x' < ?W" "uint y' < ?H"
      by simp_all
    from eq pq qq have "uint (XY c x y) = uint (XY c x' y')" by simp
    then have "?m (uint x) (uint y) = ?m (uint x') (uint y')" by (simp only: XY)
    with r have "uint x = uint x' \<and> uint y = uint y'"
      by (intro mapPosition_inj) simp_all
    then show "p = q" by (simp add: pq qq word_uint_eq_iff)
  qed
  have img: "(\<lambda>(x, y). XY c x y) ` ?grid = {i. uint i < NUM_LEDS c}"
  proof (intro equalityI subsetI)
    fix i assume "i \<in> (\<lambda>(x, y). XY c x y) ` ?grid"
    then obtain x y where "i = XY c x y" by auto
    moreover have "uint (XY c x y) < ?W * ?H"
      unfolding XY using geo by (intro mapPosition_range) simp_all
    ultimately show "i \<in> {i. uint i < NUM_LEDS c}" by (simp add: NUM_LEDS_def)
  next
    fix i :: "16 word" assume "i \<in> {i. uint i < NUM_LEDS c}"
    then have i: "0 \<le> uint i" "uint i < ?W * ?H" by (simp_all add: NUM_LEDS_def)
    from mapPosition_surj [OF geo(1) i]
    obtain x y where xy: "0 \<le> x" "x < ?W" "0 \<le> y" "y < ?H" "?m x y = uint i"
      by blast
    define xw :: "8 word" where "xw = word_of_int x"
    define yw :: "8 word" where "yw = word_of_int y"
    have ux: "uint xw = x" unfolding xw_def using xy geo by (intro u8_of_int) simp_all
    have uy: "uint yw = y" unfolding yw_def using xy geo by (intro u8_of_int) simp_all
    have "uint (XY c xw yw) = uint i" by (simp only: XY ux uy xy)
    then have "XY c xw yw = i" by (rule word_uint_eqI)
    moreover have "(xw, yw) \<in> ?grid" using xy ux uy by simp
    ultimately show "i \<in> (\<lambda>(x, y). XY c x y) ` ?grid" by force
  qed
  from inj img show ?thesis by (simp only: bij_betw_def)
qed

theorem XY_bijection_witness:
  "geometry_ok board_config \<and>
   bij_betw (\<lambda>(x, y). XY board_config x y)
     {(x, y). uint x < 8 \<and> uint y < 8} {i. uint i < 64}"
proof -
  have "MATRIX_WIDTH board_config = 8" "MATRIX_HEIGHT board_config = 8"
    "NUM_LEDS board_config = 64"
    by (simp_all add: board_config_def NUM_LEDS_def)
  with XY_bijection [OF geometry_ok_board] geometry_ok_board
  show ?thesis by simp
qed

text \<open>
  C7. The mapper does not read the rotation setting: changing \<open>PANEL_ROTATION\<close> leaves
  the index of every coordinate pair unchanged, whatever the wiring and the flips.
\<close>

theorem XY_ignores_rotation: "XY (c\<lparr>PANEL_ROTATION := rot\<rparr>) x y = XY c x y"
  by (simp add: XY_def Let_def)

text \<open>
  C9. With the values the header defines (no serpentine wiring, no flips) the mapper is the
  clamped row-major map \<open>min y 7 * 8 + min x 7\<close> for all 8-bit \<open>x\<close> and \<open>y\<close>. In
  particular row 1 begins at index 8 and is not reversed, although the comment in the
  header describes serpentine wiring.
\<close>

theorem XY_board_config:
  "XY board_config x y = word_of_int (min (uint y) 7 * 8 + min (uint x) 7) \<and>
   uint (XY board_config x y) = min (uint y) 7 * 8 + min (uint x) 7 \<and>
   PANEL_WIRING_SERPENTINE board_config = 0 \<and> PANEL_FLIP_X board_config = 0 \<and>
   PANEL_FLIP_Y board_config = 0 \<and> XY board_config 0 1 = 8"
proof -
  have cfg: "PANEL_WIRING_SERPENTINE board_config = 0" "PANEL_FLIP_X board_config = 0"
    "PANEL_FLIP_Y board_config = 0" "MATRIX_WIDTH board_config = 8"
    "MATRIX_HEIGHT board_config = 8"
    by (simp_all add: board_config_def)
  have u: "uint (XY board_config x y) = min (uint y) 7 * 8 + min (uint x) 7"
    using cfg by (simp add: XY_refines [OF geometry_ok_board] mapPosition_plain Let_def)
  have "word_of_int (uint (XY board_config x y)) = XY board_config x y" by simp
  with u have w: "XY board_config x y = word_of_int (min (uint y) 7 * 8 + min (uint x) 7)"
    by (simp del: word_of_int_uint of_int_add of_int_mult)
  have "XY board_config 0 1 = 8" by (simp add: XY_def board_config_def)
  with u w cfg show ?thesis by blast
qed

section \<open>Frame serialisation\<close>

lemma hex_digits_roundtrip:
  "map (\<lambda>n. hex_digit_value (hex_digit n)) [0..<16] = [0..<16]"
  by code_simp

lemma hex_digit_value_hex_digit:
  assumes "n < 16"
  shows "hex_digit_value (hex_digit n) = n"
proof -
  from assms have "map (\<lambda>n. hex_digit_value (hex_digit n)) [0..<16] ! n = hex_digit_value (hex_digit n)"
    by (subst nth_map) simp_all
  moreover from assms have "[0..<16] ! n = n"
    by (subst nth_upt) simp_all
  ultimately show ?thesis by (simp only: hex_digits_roundtrip)
qed

lemma hex_digit_in:
  assumes "n < 16"
  shows "hex_digit n \<in> set ''0123456789ABCDEF''"
  unfolding hex_digit_def using assms by (intro nth_mem) simp

lemma u8_nibbles:
  fixes v :: "8 word"
  shows "unat v div 16 < 16" and "unat v mod 16 < 16"
proof -
  have "unat v < 2 ^ LENGTH(8)" by (rule unsigned_less)
  then have "unat v < 256" by simp
  then show "unat v div 16 < 16" by simp
  show "unat v mod 16 < 16" by simp
qed

lemma hex_value_fmt_02X: "hex_value (fmt_02X v) = unat v"
  by (simp add: hex_value_def fmt_02X_def hex_digit_value_hex_digit u8_nibbles)

lemma fmt_02X_digits: "set (fmt_02X v) \<subseteq> set ''0123456789ABCDEF''"
  using hex_digit_in [OF u8_nibbles(1) [of v]] hex_digit_in [OF u8_nibbles(2) [of v]]
  by (simp add: fmt_02X_def)

lemma length_fmt_02X: "length (fmt_02X v) = 2"
  by (simp add: fmt_02X_def)

lemma frame_cols_eq:
  "frame_cols c leds y x out =
     out @ concat (map (\<lambda>x. sprintf_pixel (leds (unat (XY c (word_of_int x) (word_of_int y)))))
                     [x..MATRIX_WIDTH c - 1])"
proof (induction c leds y x out rule: frame_cols.induct)
  case (1 c leds y x out)
  show ?case
  proof (cases "x < MATRIX_WIDTH c")
    case True
    then have "[x..MATRIX_WIDTH c - 1] = x # [x + 1..MATRIX_WIDTH c - 1]"
      by (simp add: upto_rec1)
    with True "1.IH" show ?thesis
      by (subst frame_cols.simps) (simp add: Serial_print_def)
  next
    case False
    then show ?thesis by (subst frame_cols.simps) simp
  qed
qed

lemma frame_rows_eq:
  "frame_rows c leds y out =
     out @ concat (map (\<lambda>y. concat (map (\<lambda>x. sprintf_pixel (leds (unat (XY c (word_of_int x) (word_of_int y)))))
                     [0..MATRIX_WIDTH c - 1])) [y..MATRIX_HEIGHT c - 1])"
proof (induction c leds y out rule: frame_rows.induct)
  case (1 c leds y out)
  show ?case
  proof (cases "y < MATRIX_HEIGHT c")
    case True
    then have "[y..MATRIX_HEIGHT c - 1] = y # [y + 1..MATRIX_HEIGHT c - 1]"
      by (simp add: upto_rec1)
    with True "1.IH" show ?thesis
      by (subst frame_rows.simps) (simp add: frame_cols_eq)
  next
    case False
    then show ?thesis by (subst frame_rows.simps) simp
  qed
qed

text \<open>
  C8. \<open>sendFrameData\<close> appends to the serial output the prefix \<open>FRAME:\<close> and then, for
  \<open>y\<close> from 0 to \<open>H - 1\<close> (outer) and \<open>x\<close> from 0 to \<open>W - 1\<close> (inner), the text of
  the pixel stored at index \<open>XY x y\<close>. The text of a pixel is seven characters: six
  upper-case hexadecimal digits, two each for the red, green and blue channel in this
  order, whose values are the channels, and then a comma.
\<close>

theorem sendFrameData_format:
  "sendFrameData c leds out =
     out @ ''FRAME:'' @
     concat (map (\<lambda>y. concat (map (\<lambda>x. sprintf_pixel (leds (unat (XY c (word_of_int x) (word_of_int y)))))
                                  [0..MATRIX_WIDTH c - 1]))
                 [0..MATRIX_HEIGHT c - 1]) \<and>
   length (sprintf_pixel color) = 7 \<and>
   set (take 6 (sprintf_pixel color)) \<subseteq> set ''0123456789ABCDEF'' \<and>
   drop 6 (sprintf_pixel color) = '','' \<and>
   hex_value (take 2 (sprintf_pixel color)) = unat (r color) \<and>
   hex_value (take 2 (drop 2 (sprintf_pixel color))) = unat (g color) \<and>
   hex_value (take 2 (drop 4 (sprintf_pixel color))) = unat (b color)"
proof -
  have out: "sendFrameData c leds out =
     out @ ''FRAME:'' @
     concat (map (\<lambda>y. concat (map (\<lambda>x. sprintf_pixel (leds (unat (XY c (word_of_int x) (word_of_int y)))))
                                  [0..MATRIX_WIDTH c - 1]))
                 [0..MATRIX_HEIGHT c - 1])"
    by (simp add: sendFrameData_def frame_rows_eq Serial_print_def)
  have len: "length (sprintf_pixel color) = 7"
    by (simp add: sprintf_pixel_def length_fmt_02X)
  have six: "take 6 (sprintf_pixel color) = fmt_02X (r color) @ fmt_02X (g color) @ fmt_02X (b color)"
    by (simp add: sprintf_pixel_def length_fmt_02X)
  have digits: "set (take 6 (sprintf_pixel color)) \<subseteq> set ''0123456789ABCDEF''"
    unfolding six using fmt_02X_digits [of "r color"] fmt_02X_digits [of "g color"]
      fmt_02X_digits [of "b color"]
    by (simp del: set_simps)
  have comma: "drop 6 (sprintf_pixel color) = '',''"
    by (simp add: sprintf_pixel_def length_fmt_02X)
  have red: "hex_value (take 2 (sprintf_pixel color)) = unat (r color)"
    by (simp add: sprintf_pixel_def length_fmt_02X hex_value_fmt_02X)
  have green: "hex_value (take 2 (drop 2 (sprintf_pixel color))) = unat (g color)"
    by (simp add: sprintf_pixel_def length_fmt_02X hex_value_fmt_02X)
  have blue: "hex_value (take 2 (drop 4 (sprintf_pixel color))) = unat (b color)"
    by (simp add: sprintf_pixel_def length_fmt_02X hex_value_fmt_02X)
  from out len digits comma red green blue show ?thesis by blast
qed

section \<open>The palette\<close>

text \<open>
  C10. Every colour of the palette has its three channels at most \<open>BRIGHTNESS_LIMIT\<close>,
  that is, at most 60.
\<close>

theorem palette_within_limit:
  "within_brightness_limit BLACK \<and> within_brightness_limit RED \<and>
   within_brightness_limit GREEN \<and> within_brightness_limit BLUE \<and>
   within_brightness_limit YELLOW \<and> within_brightness_limit CYAN \<and>
   within_brightness_limit MAGENTA \<and> within_brightness_limit WHITE \<and>
   within_brightness_limit ORANGE \<and> within_brightness_limit PURPLE"
  by (simp add: within_brightness_limit_def BRIGHTNESS_LIMIT_def BLACK_def RED_def GREEN_def
      BLUE_def YELLOW_def CYAN_def MAGENTA_def WHITE_def ORANGE_def PURPLE_def)

end
